theory Spec2Isabelle
  imports Main
begin

section \<open>How a C++ call ends\<close>

text \<open>
  A call either returns a value, leaves by an exception, or has undefined behaviour
  (a precondition of the library is violated, a null or indeterminate pointer is
  read or dereferenced). The three are kept apart, so that "fails with an exception"
  and "is undefined" are different results of the model.
\<close>

datatype 'a outcome = Returns 'a | Throws string | Undefined

fun and_then :: "'a outcome \<Rightarrow> ('a \<Rightarrow> 'b outcome) \<Rightarrow> 'b outcome" where
  "and_then (Returns x) f = f x"
| "and_then (Throws e) f = Throws e"
| "and_then Undefined f = Undefined"

section \<open>The stack adapter of \<open>13. Stack/main.cpp\<close>\<close>

subsection \<open>The three backing containers\<close>

text \<open>
  \<open>std::stack<T, Container>\<close> is instantiated in \<open>main\<close> over \<open>std::deque\<close> (the
  default), \<open>std::vector\<close> and \<open>std::list\<close>. Each holds its elements front to back;
  the adapter uses \<open>push_back\<close>, \<open>pop_back\<close>, \<open>back\<close> (here \<open>back_of\<close>), \<open>size\<close> and \<open>empty\<close> only.
  \<open>pop_back\<close> and \<open>back\<close> require a non-empty container: on an empty one the behaviour
  is undefined, no exception is thrown.
\<close>

datatype 'a container = StdDeque "'a list" | StdVector "'a list" | StdList "'a list"

fun elements :: "'a container \<Rightarrow> 'a list" where
  "elements (StdDeque xs) = xs"
| "elements (StdVector xs) = xs"
| "elements (StdList xs) = xs"

fun push_back :: "'a \<Rightarrow> 'a container \<Rightarrow> 'a container" where
  "push_back x (StdDeque xs) = StdDeque (xs @ [x])"
| "push_back x (StdVector xs) = StdVector (xs @ [x])"
| "push_back x (StdList xs) = StdList (xs @ [x])"

fun pop_back :: "'a container \<Rightarrow> 'a container outcome" where
  "pop_back (StdDeque xs) = (if xs = [] then Undefined else Returns (StdDeque (butlast xs)))"
| "pop_back (StdVector xs) = (if xs = [] then Undefined else Returns (StdVector (butlast xs)))"
| "pop_back (StdList xs) = (if xs = [] then Undefined else Returns (StdList (butlast xs)))"

fun back_of :: "'a container \<Rightarrow> 'a outcome" where
  "back_of (StdDeque xs) = (if xs = [] then Undefined else Returns (last xs))"
| "back_of (StdVector xs) = (if xs = [] then Undefined else Returns (last xs))"
| "back_of (StdList xs) = (if xs = [] then Undefined else Returns (last xs))"

text \<open>\<open>c.back() = v\<close>: assignment through the reference that \<open>back\<close> returns.\<close>

fun back_assign :: "'a \<Rightarrow> 'a container \<Rightarrow> 'a container outcome" where
  "back_assign v (StdDeque xs) =
     (if xs = [] then Undefined else Returns (StdDeque (butlast xs @ [v])))"
| "back_assign v (StdVector xs) =
     (if xs = [] then Undefined else Returns (StdVector (butlast xs @ [v])))"
| "back_assign v (StdList xs) =
     (if xs = [] then Undefined else Returns (StdList (butlast xs @ [v])))"

fun container_size :: "'a container \<Rightarrow> nat" where
  "container_size (StdDeque xs) = length xs"
| "container_size (StdVector xs) = length xs"
| "container_size (StdList xs) = length xs"

fun container_empty :: "'a container \<Rightarrow> bool" where
  "container_empty (StdDeque xs) = (xs = [])"
| "container_empty (StdVector xs) = (xs = [])"
| "container_empty (StdList xs) = (xs = [])"

subsection \<open>\<open>std::stack\<close>\<close>

text \<open>
  The adapter owns one container \<open>c\<close> and forwards to it: \<open>push\<close> is \<open>c.push_back\<close>,
  \<open>pop\<close> is \<open>c.pop_back\<close> (it returns nothing), \<open>top\<close> is \<open>c.back\<close> (a reference, so
  \<open>s.top() = v\<close> writes the top element), \<open>size\<close> and \<open>empty\<close> are the container's.
\<close>

datatype 'a stack = Stack (c: "'a container")

definition stack_push :: "'a \<Rightarrow> 'a stack \<Rightarrow> 'a stack" where
  "stack_push x s = Stack (push_back x (c s))"

definition stack_pop :: "'a stack \<Rightarrow> 'a stack outcome" where
  "stack_pop s = and_then (pop_back (c s)) (\<lambda>c'. Returns (Stack c'))"

definition stack_top :: "'a stack \<Rightarrow> 'a outcome" where
  "stack_top s = back_of (c s)"

definition stack_top_assign :: "'a \<Rightarrow> 'a stack \<Rightarrow> 'a stack outcome" where
  "stack_top_assign v s = and_then (back_assign v (c s)) (\<lambda>c'. Returns (Stack c'))"

definition stack_size :: "'a stack \<Rightarrow> nat" where
  "stack_size s = container_size (c s)"

definition stack_empty :: "'a stack \<Rightarrow> bool" where
  "stack_empty s = container_empty (c s)"

text \<open>The loop \<open>for (int i: {1,2,3,4,5}) s.push(i)\<close> of \<open>main\<close>, for any list of values.\<close>

fun push_each :: "'a list \<Rightarrow> 'a stack \<Rightarrow> 'a stack" where
  "push_each [] s = s"
| "push_each (x # xs) s = push_each xs (stack_push x s)"

text \<open>
  \<open>pop\<close> returns nothing, so a popped value is observed the way \<open>display\<close> does it:
  \<open>T elem = s.top(); s.pop();\<close>. \<open>take_top\<close> is that pair of statements, \<open>take_tops n\<close>
  repeats it \<open>n\<close> times and collects the values in the order they were seen.
\<close>

definition take_top :: "'a stack \<Rightarrow> ('a \<times> 'a stack) outcome" where
  "take_top s =
     and_then (stack_top s) (\<lambda>elem.
     and_then (stack_pop s) (\<lambda>s'. Returns (elem, s')))"

fun take_tops :: "nat \<Rightarrow> 'a stack \<Rightarrow> ('a list \<times> 'a stack) outcome" where
  "take_tops 0 s = Returns ([], s)"
| "take_tops (Suc n) s =
     and_then (take_top s) (\<lambda>(elem, s').
     and_then (take_tops n s') (\<lambda>(seen, s''). Returns (elem # seen, s'')))"

text \<open>A \<open>pop\<close> that returns leaves a smaller stack: the loops below terminate.\<close>

lemma stack_pop_smaller: "stack_pop s = Returns s' \<Longrightarrow> stack_size s' < stack_size s"
  by (cases s; cases "c s") (auto simp: stack_pop_def stack_size_def split: if_splits)

text \<open>The loop \<open>while (!s.empty()) s.pop();\<close> of \<open>main\<close>.\<close>

function drain :: "'a stack \<Rightarrow> 'a stack outcome" where
  "drain s =
     (if \<not> stack_empty s
      then (case stack_pop s of
              Returns s' \<Rightarrow> drain s'
            | Throws e \<Rightarrow> Throws e
            | Undefined \<Rightarrow> Undefined)
      else Returns s)"
  by pat_completeness auto
termination
  by (relation "measure stack_size") (auto dest: stack_pop_smaller)

declare drain.simps [simp del]

subsection \<open>\<open>display\<close>: the stack is passed by value\<close>

text \<open>
  What is written to \<open>std::cout\<close>, piece by piece: a string literal, an element of the
  stack, a \<open>size()\<close> result, \<open>std::endl\<close>.
\<close>

datatype 'a token = Text string | Elem 'a | Count nat | Endl

text \<open>
  The stack objects of the program live in a store and are named by their index in it.
  \<open>display(std::stack<T> s)\<close> takes its argument by value: the call copy-constructs the
  parameter as a new object, the loop tops and pops that object, and the object is
  destroyed when the call returns. \<open>display_loop\<close> is the \<open>while\<close> loop, working on the
  parameter at index \<open>p\<close>. The parameter type \<open>std::stack<T>\<close> is the stack over the
  default \<open>std::deque\<close>; the model runs \<open>display\<close> on a stack over any of the three
  containers.
\<close>

type_synonym 'a store = "'a stack list"

function display_loop ::
  "'a store \<Rightarrow> nat \<Rightarrow> 'a token list \<Rightarrow> ('a store \<times> 'a token list) outcome" where
  "display_loop \<sigma> p cout =
     (if p < length \<sigma>
      then (if \<not> stack_empty (\<sigma> ! p)
            then (case stack_top (\<sigma> ! p) of
                    Returns elem \<Rightarrow>
                      (case stack_pop (\<sigma> ! p) of
                         Returns s' \<Rightarrow>
                           display_loop (\<sigma>[p := s']) p (cout @ [Elem elem, Text '' ''])
                       | Throws e \<Rightarrow> Throws e
                       | Undefined \<Rightarrow> Undefined)
                  | Throws e \<Rightarrow> Throws e
                  | Undefined \<Rightarrow> Undefined)
            else Returns (\<sigma>, cout))
      else Undefined)"
  by pat_completeness auto
termination
  by (relation "measure (\<lambda>(\<sigma>, p, cout). stack_size (\<sigma> ! p))")
     (auto dest: stack_pop_smaller)

declare display_loop.simps [simp del]

definition display ::
  "'a store \<Rightarrow> nat \<Rightarrow> 'a token list \<Rightarrow> ('a store \<times> 'a token list) outcome" where
  "display \<sigma> a cout =
     (if a < length \<sigma>
      then (let p = length \<sigma>;
                \<sigma>1 = \<sigma> @ [\<sigma> ! a]
            in and_then (display_loop \<sigma>1 p (cout @ [Text ''[ ''])) (\<lambda>(\<sigma>2, cout2).
               Returns (take p \<sigma>2, cout2 @ [Text '']'', Endl])))
      else Undefined)"

subsection \<open>\<open>main\<close> of the stack program\<close>

text \<open>
  The four stacks \<open>s\<close>, \<open>s1\<close>, \<open>s2\<close>, \<open>s3\<close> are the objects 0 to 3 of the store; only \<open>s\<close>
  is used. \<open>on_s f\<close> runs a member function on \<open>s\<close> and stores the changed stack.
\<close>

definition on_s :: "('a stack \<Rightarrow> 'a stack outcome) \<Rightarrow> 'a store \<Rightarrow> 'a store outcome" where
  "on_s f \<sigma> = and_then (f (\<sigma> ! 0)) (\<lambda>s'. Returns (\<sigma>[0 := s']))"

definition stack_main :: "(int store \<times> int token list) outcome" where
  "stack_main =
     and_then (on_s (\<lambda>s. Returns (push_each [1, 2, 3, 4, 5] s))
        [Stack (StdDeque []), Stack (StdVector []), Stack (StdList []), Stack (StdDeque [])])
       (\<lambda>\<sigma>.
     and_then (display \<sigma> 0 []) (\<lambda>(\<sigma>, cout).
     and_then (on_s (\<lambda>s. Returns (stack_push 100 s)) \<sigma>) (\<lambda>\<sigma>.
     and_then (display \<sigma> 0 cout) (\<lambda>(\<sigma>, cout).
     and_then (on_s stack_pop \<sigma>) (\<lambda>\<sigma>.
     and_then (on_s stack_pop \<sigma>) (\<lambda>\<sigma>.
     and_then (display \<sigma> 0 cout) (\<lambda>(\<sigma>, cout).
     and_then (on_s drain \<sigma>) (\<lambda>\<sigma>.
     and_then (display \<sigma> 0 cout) (\<lambda>(\<sigma>, cout).
     and_then (Returns (cout @ [Text ''Size: '', Count (stack_size (\<sigma> ! 0)), Endl])) (\<lambda>cout.
     and_then (on_s (\<lambda>s. Returns (stack_push 10 s)) \<sigma>) (\<lambda>\<sigma>.
     and_then (display \<sigma> 0 cout) (\<lambda>(\<sigma>, cout).
     and_then (on_s (stack_top_assign 100) \<sigma>) (\<lambda>\<sigma>.
     and_then (display \<sigma> 0 cout) (\<lambda>(\<sigma>, cout).
     Returns (\<sigma>, cout)))))))))))))))"

text \<open>
  A container of the same kind with other elements. It is not a function of the
  program: the lemmas below use it to speak about the three kinds at once.
\<close>

fun with_elements :: "'a container \<Rightarrow> 'a list \<Rightarrow> 'a container" where
  "with_elements (StdDeque _) ys = StdDeque ys"
| "with_elements (StdVector _) ys = StdVector ys"
| "with_elements (StdList _) ys = StdList ys"

section \<open>The doubly linked list of \<open>25-Generics-master/C++/2-list.cpp\<close>\<close>

subsection \<open>Pointers and list items\<close>

text \<open>
  A \<open>ListItem<T>*\<close> is \<open>NULL\<close>, the address of an item on the free store, or
  indeterminate: \<open>new ListItem<T>\<close> default-initialises the item, and \<open>ListItem\<close> has no
  constructor, so its two pointer members hold no determinate value until they are
  assigned. Reading or dereferencing an indeterminate pointer is undefined behaviour.
\<close>

datatype ptr = Indeterminate | Null | Addr nat

record 'a ListItem =
  "next" :: ptr
  prev :: ptr
  data :: 'a

text \<open>
  \<open>items\<close> is the free store: every item that \<open>new\<close> has allocated, an item's address
  being its index. \<open>head\<close> and \<open>tail\<close> are the two private members of \<open>List<T>\<close>.
\<close>

record 'a List =
  items :: "'a ListItem list"
  head :: ptr
  tail :: ptr

text \<open>The constructor \<open>List<T>()\<close>: \<open>head = NULL; tail = NULL;\<close>.\<close>

definition List_ctor :: "'a List" where
  "List_ctor = \<lparr>items = [], head = Null, tail = Null\<rparr>"

text \<open>\<open>p->prev = q\<close> and \<open>p->next = q\<close> for an item at address \<open>a\<close>.\<close>

definition set_prev :: "nat \<Rightarrow> ptr \<Rightarrow> 'a ListItem list \<Rightarrow> 'a ListItem list" where
  "set_prev a q h = h[a := (h ! a)\<lparr>prev := q\<rparr>]"

definition set_next :: "nat \<Rightarrow> ptr \<Rightarrow> 'a ListItem list \<Rightarrow> 'a ListItem list" where
  "set_next a q h = h[a := (h ! a)\<lparr>next := q\<rparr>]"

text \<open>
  \<open>List::push\<close>. The new item gets its \<open>data\<close>; its \<open>next\<close> is never written, and its
  \<open>prev\<close> is written only when the list already has a head. \<open>tail->next = item\<close>
  dereferences \<open>tail\<close>, which is undefined unless \<open>tail\<close> is the address of an item
  allocated before.
\<close>

definition List_push :: "'a \<Rightarrow> 'a List \<Rightarrow> 'a List outcome" where
  "List_push v l =
     (let item = length (items l);
          h = items l @ [\<lparr>next = Indeterminate, prev = Indeterminate, data = v\<rparr>]
      in case head l of
           Indeterminate \<Rightarrow> Undefined
         | Null \<Rightarrow> Returns (l\<lparr>items := h, head := Addr item, tail := Addr item\<rparr>)
         | Addr _ \<Rightarrow>
             (case tail l of
                Addr t \<Rightarrow>
                  (if t < item
                   then Returns (l\<lparr>items := set_next t (Addr item) (set_prev item (tail l) h),
                                   tail := Addr item\<rparr>)
                   else Undefined)
              | _ \<Rightarrow> Undefined))"

fun push_all :: "'a list \<Rightarrow> 'a List \<Rightarrow> 'a List outcome" where
  "push_all [] l = Returns l"
| "push_all (x # xs) l = and_then (List_push x l) (push_all xs)"

text \<open>
  \<open>List::display\<close>. The loop ends normally when \<open>current\<close> is \<open>NULL\<close>; the test
  \<open>current != NULL\<close> on an indeterminate pointer is undefined behaviour, after the data
  printed so far. The loop need not end on every free store (the links may form a
  cycle), so not returning is the value \<open>None\<close>.
\<close>

datatype 'a printed = Finished "'a list" | Undefined_after "'a list"

partial_function (option) display_from ::
  "'a ListItem list \<Rightarrow> ptr \<Rightarrow> 'a list \<Rightarrow> 'a printed option" where
  "display_from h current out =
     (case current of
        Indeterminate \<Rightarrow> Some (Undefined_after out)
      | Null \<Rightarrow> Some (Finished out)
      | Addr a \<Rightarrow>
          (if a < length h
           then display_from h (next (h ! a)) (out @ [data (h ! a)])
           else Some (Undefined_after out)))"

definition List_display :: "'a List \<Rightarrow> 'a printed option" where
  "List_display l = display_from (items l) (head l) []"

text \<open>\<open>main\<close>: three pushes and one \<open>display\<close>.\<close>

definition list_main :: "string printed option" where
  "list_main =
     (case push_all [''Ave'', ''Emperor'', ''Marcus Aurelius!''] List_ctor of
        Returns l \<Rightarrow> List_display l
      | _ \<Rightarrow> Some (Undefined_after []))"

text \<open>
  \<open>List<T>\<close> declares no destructor: the implicit one destroys the members \<open>head\<close> and
  \<open>tail\<close>, which are plain pointers, and deletes nothing. What is left when a list
  goes out of scope is the free store as it was.
\<close>

definition List_dtor :: "'a List \<Rightarrow> 'a ListItem list" where
  "List_dtor l = items l"

text \<open>
  Walking the links: \<open>follow_next h n p\<close> is \<open>p\<close> after \<open>n\<close> times \<open>p = p->next\<close>,
  \<open>follow_prev\<close> the same along \<open>prev\<close>; \<open>None\<close> when a step dereferences a pointer
  that is not the address of an item.
\<close>

fun follow_next :: "'a ListItem list \<Rightarrow> nat \<Rightarrow> ptr \<Rightarrow> ptr option" where
  "follow_next h 0 p = Some p"
| "follow_next h (Suc n) p =
     (case p of
        Addr a \<Rightarrow> (if a < length h then follow_next h n (next (h ! a)) else None)
      | _ \<Rightarrow> None)"

fun follow_prev :: "'a ListItem list \<Rightarrow> nat \<Rightarrow> ptr \<Rightarrow> ptr option" where
  "follow_prev h 0 p = Some p"
| "follow_prev h (Suc n) p =
     (case p of
        Addr a \<Rightarrow> (if a < length h then follow_prev h n (prev (h ! a)) else None)
      | _ \<Rightarrow> None)"

text \<open>
  The list that pushing \<open>xs\<close> onto a new list builds, written out: item \<open>i\<close> holds
  \<open>xs ! i\<close>, points forward to item \<open>i + 1\<close> unless it is the last one and back to
  item \<open>i - 1\<close> unless it is the first one; the two links at the ends were never
  assigned. It is proved below to be what \<open>push_all\<close> returns.
\<close>

definition linked_item :: "'a list \<Rightarrow> nat \<Rightarrow> 'a ListItem" where
  "linked_item xs i =
     \<lparr>next = (if Suc i < length xs then Addr (Suc i) else Indeterminate),
      prev = (if 0 < i then Addr (i - 1) else Indeterminate),
      data = xs ! i\<rparr>"

definition linked :: "'a list \<Rightarrow> 'a List" where
  "linked xs =
     (if xs = [] then List_ctor
      else \<lparr>items = map (linked_item xs) [0..<length xs],
            head = Addr 0, tail = Addr (length xs - 1)\<rparr>)"

section \<open>The two classes of \<open>6. Smart Pointers/3. WeakPointers/main.cpp\<close>\<close>

subsection \<open>Objects, control blocks and the heap\<close>

text \<open>
  \<open>make_shared\<close> puts an object on the heap together with a control block that counts
  the \<open>shared_ptr\<close>s owning it (\<open>use_count\<close>) and the \<open>weak_ptr\<close>s observing it. A smart
  pointer is empty (\<open>None\<close>) or holds the address of such a block. As the header
  comment of the file says, a \<open>weak_ptr\<close> "does NOT increment or decrement reference
  use count". The object is destroyed when its \<open>use_count\<close> falls to 0: its destructor
  runs, then its members are destroyed.
\<close>

record A =
  b_ptr :: "nat option"

record B =
  a_ptr :: "nat option"

record 'o block =
  use_count :: nat
  weak_count :: nat
  object :: "'o option"

record heap =
  As :: "A block list"
  Bs :: "B block list"
  console :: "string list"

text \<open>\<open>make_shared<A>()\<close> and \<open>make_shared<B>()\<close>: the constructors print a line.\<close>

definition make_shared_A :: "heap \<Rightarrow> nat option \<times> heap" where
  "make_shared_A h =
     (Some (length (As h)),
      h\<lparr>As := As h @ [\<lparr>use_count = 1, weak_count = 0, object = Some \<lparr>b_ptr = None\<rparr>\<rparr>],
        console := console h @ [''A Constructor'']\<rparr>)"

definition make_shared_B :: "heap \<Rightarrow> nat option \<times> heap" where
  "make_shared_B h =
     (Some (length (Bs h)),
      h\<lparr>Bs := Bs h @ [\<lparr>use_count = 1, weak_count = 0, object = Some \<lparr>a_ptr = None\<rparr>\<rparr>],
        console := console h @ [''B Constructor'']\<rparr>)"

text \<open>One more \<open>shared_ptr<B>\<close> owns the object; one more \<open>weak_ptr<A>\<close> observes it.\<close>

definition share_B :: "nat option \<Rightarrow> heap \<Rightarrow> heap outcome" where
  "share_B p h =
     (case p of
        None \<Rightarrow> Returns h
      | Some q \<Rightarrow>
          (if q < length (Bs h)
           then Returns (h\<lparr>Bs := (Bs h)[q := (Bs h ! q)\<lparr>use_count := Suc (use_count (Bs h ! q))\<rparr>]\<rparr>)
           else Undefined))"

definition observe_A :: "nat option \<Rightarrow> heap \<Rightarrow> heap outcome" where
  "observe_A p h =
     (case p of
        None \<Rightarrow> Returns h
      | Some q \<Rightarrow>
          (if q < length (As h)
           then Returns (h\<lparr>As := (As h)[q := (As h ! q)\<lparr>weak_count := Suc (weak_count (As h ! q))\<rparr>]\<rparr>)
           else Undefined))"

text \<open>The destructor of a \<open>weak_ptr<A>\<close>: one observer less, nothing else.\<close>

definition unobserve_A :: "nat option \<Rightarrow> heap \<Rightarrow> heap outcome" where
  "unobserve_A p h =
     (case p of
        None \<Rightarrow> Returns h
      | Some q \<Rightarrow>
          (if q < length (As h) \<and> 0 < weak_count (As h ! q)
           then Returns (h\<lparr>As := (As h)[q := (As h ! q)\<lparr>weak_count := weak_count (As h ! q) - 1\<rparr>]\<rparr>)
           else Undefined))"

text \<open>
  \<open>~B()\<close> prints its line; then the member \<open>a_ptr\<close>, a \<open>weak_ptr<A>\<close>, is destroyed.
  \<open>release_B\<close> is the destructor of a \<open>shared_ptr<B>\<close>: one owner less, and the object
  is destroyed when that was the last one.
\<close>

definition destroy_B :: "nat \<Rightarrow> heap \<Rightarrow> heap outcome" where
  "destroy_B q h =
     (case object (Bs h ! q) of
        None \<Rightarrow> Undefined
      | Some b \<Rightarrow>
          and_then (unobserve_A (a_ptr b) (h\<lparr>console := console h @ [''B Destructor'']\<rparr>))
            (\<lambda>h'. Returns (h'\<lparr>Bs := (Bs h')[q := (Bs h' ! q)\<lparr>object := None\<rparr>]\<rparr>)))"

definition release_B :: "nat option \<Rightarrow> heap \<Rightarrow> heap outcome" where
  "release_B p h =
     (case p of
        None \<Rightarrow> Returns h
      | Some q \<Rightarrow>
          (if q < length (Bs h) \<and> 0 < use_count (Bs h ! q)
           then (let h' = h\<lparr>Bs := (Bs h)[q := (Bs h ! q)\<lparr>use_count := use_count (Bs h ! q) - 1\<rparr>]\<rparr>
                 in if use_count (Bs h' ! q) = 0 then destroy_B q h' else Returns h')
           else Undefined))"

text \<open>
  \<open>~A()\<close> prints its line; then the member \<open>b_ptr\<close>, a \<open>shared_ptr<B>\<close>, is destroyed,
  which releases the \<open>B\<close> it owns.
\<close>

definition destroy_A :: "nat \<Rightarrow> heap \<Rightarrow> heap outcome" where
  "destroy_A q h =
     (case object (As h ! q) of
        None \<Rightarrow> Undefined
      | Some a \<Rightarrow>
          and_then (release_B (b_ptr a) (h\<lparr>console := console h @ [''A Destructor'']\<rparr>))
            (\<lambda>h'. Returns (h'\<lparr>As := (As h')[q := (As h' ! q)\<lparr>object := None\<rparr>]\<rparr>)))"

definition release_A :: "nat option \<Rightarrow> heap \<Rightarrow> heap outcome" where
  "release_A p h =
     (case p of
        None \<Rightarrow> Returns h
      | Some q \<Rightarrow>
          (if q < length (As h) \<and> 0 < use_count (As h ! q)
           then (let h' = h\<lparr>As := (As h)[q := (As h ! q)\<lparr>use_count := use_count (As h ! q) - 1\<rparr>]\<rparr>
                 in if use_count (As h' ! q) = 0 then destroy_A q h' else Returns h')
           else Undefined))"

subsection \<open>The member functions and \<open>main\<close>\<close>

text \<open>
  \<open>a->set_B(b)\<close> runs \<open>b_ptr = b\<close> on the object that \<open>a\<close> owns: the new target gets
  one more owner, the old target of \<open>b_ptr\<close> is released. Calling through an empty
  pointer, or on a destroyed object, is undefined.
\<close>

definition set_B :: "nat option \<Rightarrow> nat option \<Rightarrow> heap \<Rightarrow> heap outcome" where
  "set_B self b h =
     (case self of
        None \<Rightarrow> Undefined
      | Some p \<Rightarrow>
          (if p < length (As h)
           then (case object (As h ! p) of
                   None \<Rightarrow> Undefined
                 | Some a \<Rightarrow>
                     and_then (share_B b h) (\<lambda>h1.
                     and_then (release_B (b_ptr a) h1) (\<lambda>h2.
                     Returns (h2\<lparr>As := (As h2)[p := (As h2 ! p)\<lparr>object := Some (a\<lparr>b_ptr := b\<rparr>)\<rparr>]\<rparr>))))
           else Undefined))"

text \<open>\<open>b->set_A(a)\<close> runs \<open>a_ptr = a\<close>: a \<open>weak_ptr<A>\<close> assigned from a \<open>shared_ptr<A>\<close>.\<close>

definition set_A :: "nat option \<Rightarrow> nat option \<Rightarrow> heap \<Rightarrow> heap outcome" where
  "set_A self a h =
     (case self of
        None \<Rightarrow> Undefined
      | Some p \<Rightarrow>
          (if p < length (Bs h)
           then (case object (Bs h ! p) of
                   None \<Rightarrow> Undefined
                 | Some b \<Rightarrow>
                     and_then (observe_A a h) (\<lambda>h1.
                     and_then (unobserve_A (a_ptr b) h1) (\<lambda>h2.
                     Returns (h2\<lparr>Bs := (Bs h2)[p := (Bs h2 ! p)\<lparr>object := Some (b\<lparr>a_ptr := a\<rparr>)\<rparr>]\<rparr>))))
           else Undefined))"

text \<open>
  \<open>std::weak_ptr<A>::lock()\<close>, the library's way to resolve a weak pointer (the
  program declares the \<open>weak_ptr\<close> and never resolves it): an empty \<open>shared_ptr\<close> when
  no owner is left, otherwise one more owner of the same object.
\<close>

definition lock_A :: "nat option \<Rightarrow> heap \<Rightarrow> (nat option \<times> heap) outcome" where
  "lock_A w h =
     (case w of
        None \<Rightarrow> Returns (None, h)
      | Some p \<Rightarrow>
          (if p < length (As h)
           then (if use_count (As h ! p) = 0
                 then Returns (None, h)
                 else Returns (Some p,
                        h\<lparr>As := (As h)[p := (As h ! p)\<lparr>use_count := Suc (use_count (As h ! p))\<rparr>]\<rparr>))
           else Undefined))"

text \<open>
  The four statements of \<open>main\<close> before \<open>return 0\<close>, giving the locals \<open>a\<close> and \<open>b\<close> and
  the heap; then \<open>main\<close> as a whole: at \<open>return\<close> the locals are destroyed in the
  reverse order of their declaration, \<open>b\<close> first and \<open>a\<close> second.
\<close>

definition weak_main_body :: "(nat option \<times> nat option \<times> heap) outcome" where
  "weak_main_body =
     (let (a, h1) = make_shared_A \<lparr>As = [], Bs = [], console = []\<rparr>;
          (b, h2) = make_shared_B h1
      in and_then (set_B a b h2) (\<lambda>h3.
         and_then (set_A b a h3) (\<lambda>h4.
         Returns (a, b, h4))))"

definition weak_main :: "heap outcome" where
  "weak_main =
     and_then weak_main_body (\<lambda>(a, b, h).
     and_then (release_B b h) (\<lambda>h'.
     release_A a h'))"

section \<open>Properties of the stack adapter\<close>

subsection \<open>The three containers behave alike\<close>

lemma with_elements_same [simp]: "with_elements k (elements k) = k"
  by (cases k) simp_all

lemma elements_with_elements [simp]: "elements (with_elements k ys) = ys"
  by (cases k) simp_all

lemma with_elements_twice [simp]: "with_elements (with_elements k xs) ys = with_elements k ys"
  by (cases k) simp_all

lemma push_back_eq: "push_back x k = with_elements k (elements k @ [x])"
  by (cases k) simp_all

lemma pop_back_eq:
  "pop_back k = (if elements k = [] then Undefined
                 else Returns (with_elements k (butlast (elements k))))"
  by (cases k) simp_all

lemma back_of_eq:
  "back_of k = (if elements k = [] then Undefined else Returns (last (elements k)))"
  by (cases k) simp_all

lemma back_assign_eq:
  "back_assign v k = (if elements k = [] then Undefined
                      else Returns (with_elements k (butlast (elements k) @ [v])))"
  by (cases k) simp_all

lemma container_size_eq: "container_size k = length (elements k)"
  by (cases k) simp_all

lemma container_empty_eq: "container_empty k = (elements k = [])"
  by (cases k) simp_all

lemmas stack_defs =
  stack_push_def stack_pop_def stack_top_def stack_top_assign_def stack_size_def
  stack_empty_def

subsection \<open>Pushing, then topping and popping\<close>

lemma push_each_eq: "push_each xs s = Stack (with_elements (c s) (elements (c s) @ xs))"
  by (induction xs arbitrary: s) (simp_all add: stack_push_def push_back_eq)

lemma take_top_snoc:
  "take_top (Stack (with_elements k (ys @ [x]))) = Returns (x, Stack (with_elements k ys))"
  by (simp add: take_top_def stack_top_def stack_pop_def back_of_eq pop_back_eq)

lemma take_tops_append:
  "take_tops (length xs) (Stack (with_elements k (ys @ xs)))
     = Returns (rev xs, Stack (with_elements k ys))"
proof (induction xs rule: rev_induct)
  case Nil
  show ?case by simp
next
  case (snoc x xs)
  have "take_tops (Suc (length xs)) (Stack (with_elements k ((ys @ xs) @ [x])))
          = Returns (x # rev xs, Stack (with_elements k ys))"
    unfolding take_tops.simps take_top_snoc using snoc.IH by simp
  then show ?case by simp
qed

lemma take_tops_push_each: "take_tops (length xs) (push_each xs s) = Returns (rev xs, s)"
  using take_tops_append [of xs "c s" "elements (c s)"]
  by (simp add: push_each_eq)

lemma five_pushes_four_pops:
  "take_tops 4 (push_each [1, 2, 3, 4, 5 :: int] (Stack (with_elements k [])))
     = Returns ([5, 4, 3, 2], Stack (with_elements k [1]))"
proof -
  have "take_tops (length [2, 3, 4, 5 :: int]) (Stack (with_elements k ([1] @ [2, 3, 4, 5])))
          = Returns (rev [2, 3, 4, 5], Stack (with_elements k [1]))"
    by (rule take_tops_append)
  moreover have "length [2, 3, 4, 5 :: int] = 4"
    by simp
  ultimately have "take_tops 4 (Stack (with_elements k ([1] @ [2, 3, 4, 5 :: int])))
                     = Returns (rev [2, 3, 4, 5], Stack (with_elements k [1]))"
    by (simp only:)
  then show ?thesis
    by (simp add: push_each_eq del: take_tops.simps)
qed

text \<open>
  C1. Pushing any values \<open>xs\<close> onto any stack \<open>s\<close> (any of the three backing
  containers, any contents) and then taking the top and popping as many times as
  there were pushes shows the values in the reverse of the push order, and gives back
  the stack \<open>s\<close>. On each backing container, pushing 1, 2, 3, 4, 5 onto an empty stack
  and popping four times shows 5, 4, 3, 2; then \<open>size()\<close> is 1 and \<open>top()\<close> is 1.
\<close>

theorem pops_reverse_pushes:
  "take_tops (length xs) (push_each xs s) = Returns (rev xs, s)
   \<and> take_tops 4 (push_each [1, 2, 3, 4, 5 :: int] (Stack (StdDeque [])))
       = Returns ([5, 4, 3, 2], Stack (StdDeque [1]))
   \<and> stack_size (Stack (StdDeque [1 :: int])) = 1
   \<and> stack_top (Stack (StdDeque [1 :: int])) = Returns 1
   \<and> take_tops 4 (push_each [1, 2, 3, 4, 5 :: int] (Stack (StdVector [])))
       = Returns ([5, 4, 3, 2], Stack (StdVector [1]))
   \<and> stack_size (Stack (StdVector [1 :: int])) = 1
   \<and> stack_top (Stack (StdVector [1 :: int])) = Returns 1
   \<and> take_tops 4 (push_each [1, 2, 3, 4, 5 :: int] (Stack (StdList [])))
       = Returns ([5, 4, 3, 2], Stack (StdList [1]))
   \<and> stack_size (Stack (StdList [1 :: int])) = 1
   \<and> stack_top (Stack (StdList [1 :: int])) = Returns 1"
proof -
  have general: "take_tops (length xs) (push_each xs s) = Returns (rev xs, s)"
    by (rule take_tops_push_each)
  have deque: "take_tops 4 (push_each [1, 2, 3, 4, 5 :: int] (Stack (StdDeque [])))
                 = Returns ([5, 4, 3, 2], Stack (StdDeque [1]))"
    using five_pushes_four_pops [of "StdDeque []"] by simp
  have vector: "take_tops 4 (push_each [1, 2, 3, 4, 5 :: int] (Stack (StdVector [])))
                  = Returns ([5, 4, 3, 2], Stack (StdVector [1]))"
    using five_pushes_four_pops [of "StdVector []"] by simp
  have linked: "take_tops 4 (push_each [1, 2, 3, 4, 5 :: int] (Stack (StdList [])))
                  = Returns ([5, 4, 3, 2], Stack (StdList [1]))"
    using five_pushes_four_pops [of "StdList []"] by simp
  from general deque vector linked show ?thesis
    by (simp add: stack_size_def stack_top_def)
qed

subsection \<open>Popping and topping an empty stack\<close>

lemma drain_eq: "drain s = Returns (Stack (with_elements (c s) []))"
proof (induction s rule: drain.induct)
  case (1 s)
  show ?case
  proof (cases "stack_empty s")
    case True
    then have "elements (c s) = []"
      by (simp add: stack_empty_def container_empty_eq)
    then have "with_elements (c s) [] = c s"
      by (metis with_elements_same)
    with True show ?thesis
      by (simp add: drain.simps [of s])
  next
    case False
    then have "elements (c s) \<noteq> []"
      by (simp add: stack_empty_def container_empty_eq)
    then have pop: "stack_pop s = Returns (Stack (with_elements (c s) (butlast (elements (c s)))))"
      by (simp add: stack_pop_def pop_back_eq)
    from "1.IH" [OF False pop] False pop show ?thesis
      by (simp add: drain.simps [of s])
  qed
qed

text \<open>
  C4, as the program has it. \<open>std::stack\<close> has no \<open>EmptyStackError\<close>: \<open>pop()\<close> on an
  empty stack is undefined behaviour, on a non-empty stack it returns, and it never
  throws. The loop \<open>while (!s.empty()) s.pop();\<close> of \<open>main\<close> pops only under the guard
  \<open>!s.empty()\<close>: it returns from every stack, with a stack that is empty and has
  size 0.
\<close>

theorem pop_is_guarded_not_checked:
  "(stack_pop s = Undefined) = stack_empty s
   \<and> (\<forall>e. stack_pop s \<noteq> Throws e)
   \<and> (\<exists>s'. drain s = Returns s' \<and> stack_empty s' \<and> stack_size s' = 0)"
proof -
  have "(stack_pop s = Undefined) = stack_empty s"
    by (simp add: stack_pop_def stack_empty_def pop_back_eq container_empty_eq)
  moreover have "\<forall>e. stack_pop s \<noteq> Throws e"
    by (simp add: stack_pop_def pop_back_eq)
  moreover have "\<exists>s'. drain s = Returns s' \<and> stack_empty s' \<and> stack_size s' = 0"
    by (simp add: drain_eq stack_empty_def stack_size_def container_empty_eq container_size_eq)
  ultimately show ?thesis by blast
qed

text \<open>
  The claim as stated fails on the empty stack over \<open>std::deque\<close>: \<open>pop()\<close> there is
  undefined, it is not an \<open>EmptyStackError\<close> that leaves an empty stack behind.
\<close>

theorem pop_on_empty_counterexample:
  "stack_empty (Stack (StdDeque ([] :: int list)))
   \<and> stack_pop (Stack (StdDeque ([] :: int list))) = Undefined
   \<and> stack_pop (Stack (StdDeque ([] :: int list))) \<noteq> Throws ''EmptyStackError''"
  by (simp add: stack_empty_def stack_pop_def)

text \<open>
  C5, as the program has it. On a non-empty stack \<open>top()\<close> returns the last element
  pushed and removes nothing (\<open>stack_top\<close> reads the stack and gives no new one); it
  is a reference, so \<open>s.top() = v\<close> (line 62 of
  \<open>main\<close>) overwrites the top element in place and keeps the elements below it and the
  size. On an empty stack \<open>top()\<close> is undefined behaviour; there is no
  \<open>EmptyStackError\<close>. Right after \<open>push(x)\<close>, \<open>top()\<close> is \<open>x\<close>.
\<close>

theorem top_is_a_writable_reference:
  "(if stack_empty s
    then stack_top s = Undefined \<and> stack_top_assign v s = Undefined
    else stack_top s = Returns (last (elements (c s)))
       \<and> (\<exists>s'. stack_top_assign v s = Returns s'
                \<and> elements (c s') = butlast (elements (c s)) @ [v]
                \<and> stack_size s' = stack_size s))
   \<and> stack_top (stack_push x s) = Returns x"
  by (simp add: stack_defs back_of_eq back_assign_eq push_back_eq container_empty_eq
        container_size_eq)

text \<open>
  The claim as stated fails twice: the view is not read-only (after \<open>s.push(10)\<close>,
  \<open>s.top() = 100\<close> leaves 100 where 10 was), and \<open>top()\<close> on an empty stack is undefined,
  not an \<open>EmptyStackError\<close>.
\<close>

theorem top_counterexample:
  "stack_top_assign 100 (stack_push 10 (Stack (StdDeque ([] :: int list))))
     = Returns (Stack (StdDeque [100]))
   \<and> stack_top (Stack (StdDeque ([] :: int list))) = Undefined
   \<and> stack_top (Stack (StdDeque ([] :: int list))) \<noteq> Throws ''EmptyStackError''"
  by (simp add: stack_defs)

subsection \<open>Displaying a stack\<close>

text \<open>The loop of \<open>display\<close> empties the parameter and prints it from the top down.\<close>

lemma display_loop_eq:
  "p < length \<sigma> \<Longrightarrow>
   display_loop \<sigma> p cout =
     Returns (\<sigma>[p := Stack (with_elements (c (\<sigma> ! p)) [])],
              cout @ concat (map (\<lambda>x. [Elem x, Text '' '']) (rev (elements (c (\<sigma> ! p))))))"
proof (induction \<sigma> p cout rule: display_loop.induct)
  case (1 \<sigma> p cout)
  let ?s = "\<sigma> ! p"
  show ?case
  proof (cases "stack_empty ?s")
    case True
    then have e: "elements (c ?s) = []"
      by (simp add: stack_empty_def container_empty_eq)
    then have "with_elements (c ?s) [] = c ?s"
      by (metis with_elements_same)
    then have "\<sigma>[p := Stack (with_elements (c ?s) [])] = \<sigma>"
      by simp
    with True e "1.prems" show ?thesis
      by (simp add: display_loop.simps [of \<sigma> p cout])
  next
    case False
    then have "elements (c ?s) \<noteq> []"
      by (simp add: stack_empty_def container_empty_eq)
    then obtain ys x where snoc: "elements (c ?s) = ys @ [x]"
      by (metis rev_exhaust)
    let ?s' = "Stack (with_elements (c ?s) ys)"
    have top: "stack_top ?s = Returns x"
      using snoc by (simp add: stack_top_def back_of_eq)
    have pop: "stack_pop ?s = Returns ?s'"
      using snoc by (simp add: stack_pop_def pop_back_eq)
    have "display_loop (\<sigma>[p := ?s']) p (cout @ [Elem x, Text '' ''])
            = Returns (\<sigma>[p := Stack (with_elements (c ?s) [])],
                cout @ [Elem x, Text '' ''] @ concat (map (\<lambda>x. [Elem x, Text '' '']) (rev ys)))"
      using "1.IH" [OF "1.prems" False top pop] "1.prems" by simp
    then show ?thesis
      using "1.prems" False top pop snoc by (simp add: display_loop.simps [of \<sigma> p cout])
  qed
qed

lemma display_eq:
  "a < length \<sigma> \<Longrightarrow>
   display \<sigma> a cout =
     Returns (\<sigma>, cout @ [Text ''[ '']
                    @ concat (map (\<lambda>x. [Elem x, Text '' '']) (rev (elements (c (\<sigma> ! a)))))
                    @ [Text '']'', Endl])"
  by (simp add: display_def Let_def display_loop_eq nth_append)

text \<open>
  C6. \<open>display\<close> on the stack object at address \<open>a\<close> returns with the store as it
  was before the call: the caller's stack, and every other stack object, holds the
  same elements in the same order. (The loop pops a copy, which the call creates and
  destroys.) What is printed is the stack from the top down, between brackets.
\<close>

theorem display_leaves_the_callers_stack:
  "a < length \<sigma> \<Longrightarrow>
   display \<sigma> a cout =
     Returns (\<sigma>, cout @ [Text ''[ '']
                    @ concat (map (\<lambda>x. [Elem x, Text '' '']) (rev (elements (c (\<sigma> ! a)))))
                    @ [Text '']'', Endl])"
  by (rule display_eq)

theorem display_leaves_the_callers_stack_witness:
  "(0 :: nat) < length [Stack (StdDeque [1, 2, 3 :: int]), Stack (StdVector [])]
   \<and> display [Stack (StdDeque [1, 2, 3 :: int]), Stack (StdVector [])] 0 []
       = Returns ([Stack (StdDeque [1, 2, 3]), Stack (StdVector [])],
                  [Text ''[ '', Elem 3, Text '' '', Elem 2, Text '' '', Elem 1, Text '' '',
                   Text '']'', Endl])"
  using display_leaves_the_callers_stack
          [of 0 "[Stack (StdDeque [1, 2, 3 :: int]), Stack (StdVector [])]" "[]"]
  by simp

text \<open>What the stack program prints, and the four stacks when it returns.\<close>

lemma stack_main_prints:
  "stack_main =
     Returns
      ([Stack (StdDeque [100]), Stack (StdVector []), Stack (StdList []), Stack (StdDeque [])],
       [Text ''[ '', Elem 5, Text '' '', Elem 4, Text '' '', Elem 3, Text '' '', Elem 2,
        Text '' '', Elem 1, Text '' '', Text '']'', Endl,
        Text ''[ '', Elem 100, Text '' '', Elem 5, Text '' '', Elem 4, Text '' '', Elem 3,
        Text '' '', Elem 2, Text '' '', Elem 1, Text '' '', Text '']'', Endl,
        Text ''[ '', Elem 4, Text '' '', Elem 3, Text '' '', Elem 2, Text '' '', Elem 1,
        Text '' '', Text '']'', Endl,
        Text ''[ '', Text '']'', Endl,
        Text ''Size: '', Count 0, Endl,
        Text ''[ '', Elem 10, Text '' '', Text '']'', Endl,
        Text ''[ '', Elem 100, Text '' '', Text '']'', Endl])"
  by (simp add: stack_main_def on_s_def display_eq drain_eq stack_defs)

section \<open>Properties of the linked list\<close>

subsection \<open>What the pushes build\<close>

lemma push_all_snoc: "push_all (xs @ [x]) l = and_then (push_all xs l) (List_push x)"
proof (induction xs arbitrary: l)
  case Nil
  show ?case by (cases "List_push x l") simp_all
next
  case (Cons y ys)
  show ?case by (cases "List_push y l") (simp_all add: Cons.IH)
qed

lemma List_push_linked: "List_push x (linked xs) = Returns (linked (xs @ [x]))"
proof (cases "xs = []")
  case True
  then show ?thesis
    by (simp add: List_push_def linked_def List_ctor_def linked_item_def)
next
  case False
  let ?n = "length xs"
  let ?h = "map (linked_item xs) [0..<?n] @ [\<lparr>next = Indeterminate, prev = Indeterminate, data = x\<rparr>]"
  from False have n: "0 < ?n" by simp
  have "set_next (?n - 1) (Addr ?n) (set_prev ?n (Addr (?n - 1)) ?h)
          = map (linked_item (xs @ [x])) [0..<Suc ?n]"
  proof (rule nth_equalityI)
    show "length (set_next (?n - 1) (Addr ?n) (set_prev ?n (Addr (?n - 1)) ?h))
            = length (map (linked_item (xs @ [x])) [0..<Suc ?n])"
      by (simp add: set_next_def set_prev_def)
  next
    fix i assume "i < length (set_next (?n - 1) (Addr ?n) (set_prev ?n (Addr (?n - 1)) ?h))"
    then have i: "i < Suc ?n" by (simp add: set_next_def set_prev_def)
    consider "i = ?n" | "i = ?n - 1" | "i < ?n - 1" using i by linarith
    then show "set_next (?n - 1) (Addr ?n) (set_prev ?n (Addr (?n - 1)) ?h) ! i
                 = map (linked_item (xs @ [x])) [0..<Suc ?n] ! i"
    proof cases
      case 1
      have "?n - 1 \<noteq> ?n" using n by linarith
      with 1 False show ?thesis
        by (simp add: set_next_def set_prev_def linked_item_def nth_append del: upt_Suc)
    next
      case 2
      have "?n - 1 \<noteq> ?n" "?n - 1 < ?n" using n by linarith+
      with 2 False show ?thesis
        by (simp add: set_next_def set_prev_def linked_item_def nth_append del: upt_Suc)
    next
      case 3
      then have "i \<noteq> ?n" "i \<noteq> ?n - 1" "i < ?n" "Suc i < ?n" by linarith+
      with False show ?thesis
        by (simp add: set_next_def set_prev_def linked_item_def nth_append del: upt_Suc)
    qed
  qed
  with False n show ?thesis
    by (simp add: List_push_def linked_def Let_def del: upt_Suc)
qed

lemma push_all_linked: "push_all xs List_ctor = Returns (linked xs)"
proof (induction xs rule: rev_induct)
  case Nil
  show ?case by (simp add: linked_def)
next
  case (snoc x xs)
  then show ?case by (simp add: push_all_snoc List_push_linked)
qed


lemma items_linked: "xs \<noteq> [] \<Longrightarrow> items (linked xs) = map (linked_item xs) [0..<length xs]"
  by (simp add: linked_def)

lemma items_linked_nth: "i < length xs \<Longrightarrow> items (linked xs) ! i = linked_item xs i"
  by (cases "xs = []") (simp_all add: linked_def)

lemma length_items_linked: "length (items (linked xs)) = length xs"
  by (simp add: linked_def List_ctor_def)

lemma head_linked: "head (linked xs) = (if xs = [] then Null else Addr 0)"
  by (simp add: linked_def List_ctor_def)

lemma tail_linked: "tail (linked xs) = (if xs = [] then Null else Addr (length xs - 1))"
  by (simp add: linked_def List_ctor_def)

lemma follow_next_linked:
  "i + k < length xs \<Longrightarrow> follow_next (items (linked xs)) k (Addr i) = Some (Addr (i + k))"
proof (induction k arbitrary: i)
  case 0
  show ?case by simp
next
  case (Suc k)
  then have "Suc i + k < length xs" by simp
  from Suc.IH [OF this] Suc.prems show ?case
    by (simp add: length_items_linked items_linked_nth linked_item_def)
qed

lemma follow_prev_linked:
  "k \<le> i \<Longrightarrow> i < length xs \<Longrightarrow>
   follow_prev (items (linked xs)) k (Addr i) = Some (Addr (i - k))"
proof (induction k arbitrary: i)
  case 0
  show ?case by simp
next
  case (Suc k)
  then have "k \<le> i - 1" "i - 1 < length xs" "0 < i" by simp_all
  from Suc.IH [OF this(1,2)] this(3) Suc.prems show ?case
    by (simp add: length_items_linked items_linked_nth linked_item_def)
qed

lemma display_from_linked:
  "i < length xs \<Longrightarrow>
   display_from (items (linked xs)) (Addr i) out = Some (Undefined_after (out @ drop i xs))"
proof (induction "length xs - i" arbitrary: i out)
  case 0
  then show ?case by simp
next
  case (Suc d)
  show ?case
  proof (cases "Suc i < length xs")
    case True
    with Suc.hyps have "d = length xs - Suc i" by simp
    from Suc.hyps(1) [OF this True, of "out @ [xs ! i]"] True Suc.prems show ?thesis
      by (subst display_from.simps)
         (simp add: length_items_linked items_linked_nth linked_item_def Cons_nth_drop_Suc)
  next
    case False
    with Suc.prems have last: "drop i xs = [xs ! i]"
      by (metis Cons_nth_drop_Suc drop_all not_less)
    have "display_from (items (linked xs)) Indeterminate (out @ [xs ! i])
            = Some (Undefined_after (out @ [xs ! i]))"
      by (subst display_from.simps) simp
    with False Suc.prems last show ?thesis
      by (subst display_from.simps)
         (simp add: length_items_linked items_linked_nth linked_item_def)
  qed
qed

lemma List_display_linked:
  "xs \<noteq> [] \<Longrightarrow> List_display (linked xs) = Some (Undefined_after xs)"
  using display_from_linked [of 0 xs "[]"] by (simp add: List_display_def head_linked)

lemma List_push_frame:
  "List_push v l = Returns l' \<Longrightarrow>
     length (items l') = Suc (length (items l))
   \<and> next (items l' ! length (items l)) = Indeterminate
   \<and> data (items l' ! length (items l)) = v
   \<and> (\<forall>a < length (items l).
         prev (items l' ! a) = prev (items l ! a)
       \<and> data (items l' ! a) = data (items l ! a)
       \<and> (tail l \<noteq> Addr a \<longrightarrow> next (items l' ! a) = next (items l ! a)))"
  by (auto simp: List_push_def Let_def set_next_def set_prev_def nth_append nth_list_update
      split: ptr.splits if_splits)

lemma data_linked: "map data (items (linked xs)) = xs"
proof (cases "xs = []")
  case True
  then show ?thesis by (simp add: linked_def List_ctor_def)
next
  case False
  have "map data (map (linked_item xs) [0..<length xs]) = map ((!) xs) [0..<length xs]"
    by (simp add: linked_item_def)
  with False show ?thesis
    by (simp add: items_linked map_nth)
qed

subsection \<open>The claims about the list\<close>

text \<open>
  C2, on the program's own input. \<open>main\<close> pushes "Ave", "Emperor" and
  "Marcus Aurelius!" and calls \<open>display\<close>: the three values are printed in the order
  of the pushes, and then the loop tests \<open>current\<close>, which is the \<open>next\<close> link of the last
  item. \<open>push\<close> never assigned it, so the run does not end in a \<open>NULL\<close> test that
  fails: it ends in undefined behaviour after the third value.
\<close>

theorem list_main_ends_in_an_indeterminate_link:
  "list_main = Some (Undefined_after [''Ave'', ''Emperor'', ''Marcus Aurelius!''])
   \<and> list_main \<noteq> Some (Finished [''Ave'', ''Emperor'', ''Marcus Aurelius!''])"
  by (simp add: list_main_def push_all_linked List_display_linked)

text \<open>
  C3, as the program has it. Pushing the values \<open>xs\<close> onto a new list always returns,
  with as many items as values. With no value pushed, \<open>head\<close> and \<open>tail\<close> are \<open>NULL\<close>.
  Otherwise \<open>length xs - 1\<close> steps along \<open>next\<close> from \<open>head\<close> end at \<open>tail\<close>, and no
  fewer do; the same number of steps along \<open>prev\<close> from \<open>tail\<close> end at \<open>head\<close>, and no
  fewer do. (A list of \<open>n\<close> items has \<open>n - 1\<close> links between its ends, not \<open>n\<close>.)
\<close>

theorem head_reaches_tail_and_back:
  "\<exists>l. push_all xs List_ctor = Returns l
      \<and> length (items l) = length xs
      \<and> (if xs = [] then head l = Null \<and> tail l = Null
          else follow_next (items l) (length xs - 1) (head l) = Some (tail l)
             \<and> follow_prev (items l) (length xs - 1) (tail l) = Some (head l)
             \<and> (\<forall>k < length xs - 1.
                   follow_next (items l) k (head l) \<noteq> Some (tail l)
                 \<and> follow_prev (items l) k (tail l) \<noteq> Some (head l)))"
proof (cases "xs = []")
  case True
  then show ?thesis
    by (simp add: List_ctor_def)
next
  case False
  let ?n = "length xs"
  from False have n: "0 + (?n - 1) < ?n" "?n - 1 \<le> ?n - 1" "?n - 1 < ?n"
    by simp_all
  have fwd: "follow_next (items (linked xs)) (?n - 1) (Addr 0) = Some (Addr (?n - 1))"
    using follow_next_linked [OF n(1)] by simp
  have bwd: "follow_prev (items (linked xs)) (?n - 1) (Addr (?n - 1)) = Some (Addr 0)"
    using follow_prev_linked [OF n(2) n(3)] by simp
  have first: "follow_next (items (linked xs)) k (Addr 0) \<noteq> Some (Addr (?n - 1))
             \<and> follow_prev (items (linked xs)) k (Addr (?n - 1)) \<noteq> Some (Addr 0)"
    if "k < ?n - 1" for k
  proof -
    from that have "0 + k < ?n" "k \<le> ?n - 1" by simp_all
    from follow_next_linked [OF this(1)] follow_prev_linked [OF this(2) n(3)] that
    show ?thesis by simp
  qed
  from False fwd bwd first show ?thesis
    by (simp add: push_all_linked length_items_linked head_linked tail_linked)
qed

theorem head_reaches_tail_and_back_witness:
  "push_all [''a'', ''b'', ''c''] List_ctor
     = Returns \<lparr>items = [\<lparr>next = Addr 1, prev = Indeterminate, data = ''a''\<rparr>,
                         \<lparr>next = Addr 2, prev = Addr 0, data = ''b''\<rparr>,
                         \<lparr>next = Indeterminate, prev = Addr 1, data = ''c''\<rparr>],
                head = Addr 0, tail = Addr 2\<rparr>
   \<and> (1 :: nat) < length [''a'', ''b'', ''c''] - 1
   \<and> follow_next [\<lparr>next = Addr 1, prev = Indeterminate, data = ''a''\<rparr>,
                   \<lparr>next = Addr 2, prev = Addr 0, data = ''b''\<rparr>,
                   \<lparr>next = Indeterminate, prev = Addr 1, data = ''c''\<rparr>] 2 (Addr 0)
       = Some (Addr 2)
   \<and> follow_next [\<lparr>next = Addr 1, prev = Indeterminate, data = ''a''\<rparr>,
                   \<lparr>next = Addr 2, prev = Addr 0, data = ''b''\<rparr>,
                   \<lparr>next = Indeterminate, prev = Addr 1, data = ''c''\<rparr>] 1 (Addr 0)
       \<noteq> Some (Addr 2)"
  using head_reaches_tail_and_back [of "[''a'', ''b'', ''c'']"]
  by (simp add: List_push_def List_ctor_def set_next_def set_prev_def numeral_2_eq_2)

text \<open>
  The claim as stated fails after two pushes: the list has two items, one step along
  \<open>next\<close> from \<open>head\<close> is \<open>tail\<close>, and a second step reads the link of the last item,
  which was never assigned.
\<close>

theorem size_steps_counterexample:
  "push_all [''a'', ''b''] List_ctor
     = Returns \<lparr>items = [\<lparr>next = Addr 1, prev = Indeterminate, data = ''a''\<rparr>,
                         \<lparr>next = Indeterminate, prev = Addr 0, data = ''b''\<rparr>],
                head = Addr 0, tail = Addr 1\<rparr>
   \<and> follow_next [\<lparr>next = Addr 1, prev = Indeterminate, data = ''a''\<rparr>,
                   \<lparr>next = Indeterminate, prev = Addr 0, data = ''b''\<rparr>] 1 (Addr 0)
       = Some (Addr 1)
   \<and> follow_next [\<lparr>next = Addr 1, prev = Indeterminate, data = ''a''\<rparr>,
                   \<lparr>next = Indeterminate, prev = Addr 0, data = ''b''\<rparr>] 2 (Addr 0)
       = Some Indeterminate
   \<and> follow_prev [\<lparr>next = Addr 1, prev = Indeterminate, data = ''a''\<rparr>,
                   \<lparr>next = Indeterminate, prev = Addr 0, data = ''b''\<rparr>] 2 (Addr 1)
       = Some Indeterminate"
  by (simp add: List_push_def List_ctor_def set_next_def set_prev_def numeral_2_eq_2)

text \<open>
  C8, as the program has it. \<open>List<T>\<close> has no destructor, so destroying a list
  deletes no item: after \<open>N\<close> pushes the free store still holds all \<open>N\<close> items, with
  the pushed values in push order, when the list is gone.
\<close>

theorem destroying_a_list_deletes_no_item:
  "\<exists>l. push_all xs List_ctor = Returns l
      \<and> List_dtor l = items l
      \<and> length (List_dtor l) = length xs
      \<and> map data (List_dtor l) = xs"
  by (simp add: push_all_linked List_dtor_def length_items_linked data_linked)

text \<open>
  The claim as stated fails after three pushes: the destroyed list leaves three items
  on the free store, none is released.
\<close>

theorem no_item_released_counterexample:
  "push_all [1, 2, 3 :: int] List_ctor
     = Returns \<lparr>items = [\<lparr>next = Addr 1, prev = Indeterminate, data = 1\<rparr>,
                         \<lparr>next = Addr 2, prev = Addr 0, data = 2\<rparr>,
                         \<lparr>next = Indeterminate, prev = Addr 1, data = 3\<rparr>],
                head = Addr 0, tail = Addr 2\<rparr>
   \<and> length (List_dtor \<lparr>items = [\<lparr>next = Addr 1, prev = Indeterminate, data = 1 :: int\<rparr>,
                                  \<lparr>next = Addr 2, prev = Addr 0, data = 2\<rparr>,
                                  \<lparr>next = Indeterminate, prev = Addr 1, data = 3\<rparr>],
                         head = Addr 0, tail = Addr 2\<rparr>) = 3"
  by (simp add: List_push_def List_ctor_def List_dtor_def set_next_def set_prev_def)

text \<open>
  C9. A \<open>push\<close> that returns leaves the \<open>next\<close> link of the item it allocates
  indeterminate, changes no \<open>prev\<close> link of an older item, and changes the \<open>next\<close> link
  of no older item but the old tail. So after any pushes onto a new list, at least
  one, the \<open>next\<close> link of the tail item and the \<open>prev\<close> link of the head item are
  indeterminate, and \<open>display\<close> prints the pushed values in order and then tests the
  indeterminate link: it ends in undefined behaviour, not in a \<open>NULL\<close> test.
\<close>

theorem the_end_links_are_never_written:
  "(List_push v l = Returns l' \<longrightarrow>
      next (items l' ! length (items l)) = Indeterminate
    \<and> (\<forall>a < length (items l).
          prev (items l' ! a) = prev (items l ! a)
        \<and> (tail l \<noteq> Addr a \<longrightarrow> next (items l' ! a) = next (items l ! a))))
   \<and> (xs \<noteq> [] \<longrightarrow>
        (\<exists>l t. push_all xs List_ctor = Returns l
              \<and> head l = Addr 0 \<and> tail l = Addr t \<and> t < length (items l)
              \<and> next (items l ! t) = Indeterminate
              \<and> prev (items l ! 0) = Indeterminate
              \<and> List_display l = Some (Undefined_after xs)))"
proof -
  have one_push:
    "next (items l' ! length (items l)) = Indeterminate
      \<and> (\<forall>a < length (items l).
            prev (items l' ! a) = prev (items l ! a)
          \<and> (tail l \<noteq> Addr a \<longrightarrow> next (items l' ! a) = next (items l ! a)))"
    if "List_push v l = Returns l'"
    using List_push_frame [OF that] by blast
  have pushes:
    "\<exists>l t. push_all xs List_ctor = Returns l
          \<and> head l = Addr 0 \<and> tail l = Addr t \<and> t < length (items l)
          \<and> next (items l ! t) = Indeterminate
          \<and> prev (items l ! 0) = Indeterminate
          \<and> List_display l = Some (Undefined_after xs)"
    if ne: "xs \<noteq> []"
  proof -
    from ne have last: "length xs - 1 < length xs" and first: "0 < length xs"
      by simp_all
    have "next (items (linked xs) ! (length xs - 1)) = Indeterminate"
      using last by (simp add: items_linked_nth linked_item_def)
    moreover have "prev (items (linked xs) ! 0) = Indeterminate"
      using first by (simp add: items_linked_nth linked_item_def)
    ultimately show ?thesis
      using ne last
      by (simp add: push_all_linked head_linked tail_linked length_items_linked
            List_display_linked)
  qed
  from one_push pushes show ?thesis
    by blast
qed

theorem the_end_links_are_never_written_witness:
  "List_push (7 :: int) \<lparr>items = [\<lparr>next = Indeterminate, prev = Indeterminate, data = 5\<rparr>],
                          head = Addr 0, tail = Addr 0\<rparr>
     = Returns \<lparr>items = [\<lparr>next = Addr 1, prev = Indeterminate, data = 5\<rparr>,
                         \<lparr>next = Indeterminate, prev = Addr 0, data = 7\<rparr>],
                head = Addr 0, tail = Addr 1\<rparr>
   \<and> [5, 7 :: int] \<noteq> []
   \<and> push_all [5, 7 :: int] List_ctor
       = Returns \<lparr>items = [\<lparr>next = Addr 1, prev = Indeterminate, data = 5\<rparr>,
                           \<lparr>next = Indeterminate, prev = Addr 0, data = 7\<rparr>],
                  head = Addr 0, tail = Addr 1\<rparr>
   \<and> List_display \<lparr>items = [\<lparr>next = Addr 1, prev = Indeterminate, data = 5 :: int\<rparr>,
                             \<lparr>next = Indeterminate, prev = Addr 0, data = 7\<rparr>],
                    head = Addr 0, tail = Addr 1\<rparr>
       = Some (Undefined_after [5, 7])"
  using the_end_links_are_never_written
          [of 7 "\<lparr>items = [\<lparr>next = Indeterminate, prev = Indeterminate, data = 5 :: int\<rparr>],
                  head = Addr 0, tail = Addr 0\<rparr>"
              "\<lparr>items = [\<lparr>next = Addr 1, prev = Indeterminate, data = 5 :: int\<rparr>,
                         \<lparr>next = Indeterminate, prev = Addr 0, data = 7\<rparr>],
                head = Addr 0, tail = Addr 1\<rparr>"
              "[5, 7]"]
  by (simp add: List_push_def List_ctor_def set_next_def set_prev_def)

section \<open>Properties of the weak pointer program\<close>

lemmas pointer_defs =
  make_shared_A_def make_shared_B_def share_B_def observe_A_def unobserve_A_def
  destroy_B_def release_B_def destroy_A_def release_A_def set_B_def set_A_def

text \<open>
  C7. Resolving a \<open>weak_ptr<A>\<close> whose object has no owner left returns an empty
  pointer and changes nothing; resolving it while an owner is left returns a pointer
  to the same object, which is as it was, with one owner more. In the program's heap
  before \<open>return\<close> (\<open>A\<close> owns \<open>B\<close>, \<open>B\<close> observes \<open>A\<close>) the \<open>a_ptr\<close> of \<open>B\<close>, which is
  \<open>Some 0\<close>, resolves to \<open>A\<close>; once \<open>a\<close>, the only owner of \<open>A\<close>, is released, \<open>A\<close> is
  destroyed, \<open>B\<close> is still alive (owned by \<open>b\<close>) and its \<open>a_ptr\<close> resolves to an empty
  pointer; releasing \<open>b\<close> then destroys \<open>B\<close>. Each destructor has run once, \<open>A\<close>'s
  before \<open>B\<close>'s.
\<close>

theorem weak_pointer_resolves_while_owned:
  "(p < length (As h) \<and> use_count (As h ! p) = 0 \<longrightarrow> lock_A (Some p) h = Returns (None, h))
   \<and> (p < length (As h) \<and> 0 < use_count (As h ! p) \<longrightarrow>
        (\<exists>h'. lock_A (Some p) h = Returns (Some p, h')
            \<and> object (As h' ! p) = object (As h ! p)
            \<and> use_count (As h' ! p) = Suc (use_count (As h ! p))
            \<and> Bs h' = Bs h \<and> console h' = console h))
   \<and> weak_main_body =
        Returns (Some 0, Some 0,
          \<lparr>As = [\<lparr>use_count = 1, weak_count = 1, object = Some \<lparr>b_ptr = Some 0\<rparr>\<rparr>],
           Bs = [\<lparr>use_count = 2, weak_count = 0, object = Some \<lparr>a_ptr = Some 0\<rparr>\<rparr>],
           console = [''A Constructor'', ''B Constructor'']\<rparr>)
   \<and> lock_A (Some 0)
          \<lparr>As = [\<lparr>use_count = 1, weak_count = 1, object = Some \<lparr>b_ptr = Some 0\<rparr>\<rparr>],
           Bs = [\<lparr>use_count = 2, weak_count = 0, object = Some \<lparr>a_ptr = Some 0\<rparr>\<rparr>],
           console = [''A Constructor'', ''B Constructor'']\<rparr>
       = Returns (Some 0,
          \<lparr>As = [\<lparr>use_count = 2, weak_count = 1, object = Some \<lparr>b_ptr = Some 0\<rparr>\<rparr>],
           Bs = [\<lparr>use_count = 2, weak_count = 0, object = Some \<lparr>a_ptr = Some 0\<rparr>\<rparr>],
           console = [''A Constructor'', ''B Constructor'']\<rparr>)
   \<and> release_A (Some 0)
          \<lparr>As = [\<lparr>use_count = 1, weak_count = 1, object = Some \<lparr>b_ptr = Some 0\<rparr>\<rparr>],
           Bs = [\<lparr>use_count = 2, weak_count = 0, object = Some \<lparr>a_ptr = Some 0\<rparr>\<rparr>],
           console = [''A Constructor'', ''B Constructor'']\<rparr>
       = Returns
          \<lparr>As = [\<lparr>use_count = 0, weak_count = 1, object = None\<rparr>],
           Bs = [\<lparr>use_count = 1, weak_count = 0, object = Some \<lparr>a_ptr = Some 0\<rparr>\<rparr>],
           console = [''A Constructor'', ''B Constructor'', ''A Destructor'']\<rparr>
   \<and> lock_A (Some 0)
          \<lparr>As = [\<lparr>use_count = 0, weak_count = 1, object = None\<rparr>],
           Bs = [\<lparr>use_count = 1, weak_count = 0, object = Some \<lparr>a_ptr = Some 0\<rparr>\<rparr>],
           console = [''A Constructor'', ''B Constructor'', ''A Destructor'']\<rparr>
       = Returns (None,
          \<lparr>As = [\<lparr>use_count = 0, weak_count = 1, object = None\<rparr>],
           Bs = [\<lparr>use_count = 1, weak_count = 0, object = Some \<lparr>a_ptr = Some 0\<rparr>\<rparr>],
           console = [''A Constructor'', ''B Constructor'', ''A Destructor'']\<rparr>)
   \<and> release_B (Some 0)
          \<lparr>As = [\<lparr>use_count = 0, weak_count = 1, object = None\<rparr>],
           Bs = [\<lparr>use_count = 1, weak_count = 0, object = Some \<lparr>a_ptr = Some 0\<rparr>\<rparr>],
           console = [''A Constructor'', ''B Constructor'', ''A Destructor'']\<rparr>
       = Returns
          \<lparr>As = [\<lparr>use_count = 0, weak_count = 0, object = None\<rparr>],
           Bs = [\<lparr>use_count = 0, weak_count = 0, object = None\<rparr>],
           console = [''A Constructor'', ''B Constructor'', ''A Destructor'', ''B Destructor'']\<rparr>"
proof -
  have expired: "p < length (As h) \<and> use_count (As h ! p) = 0 \<longrightarrow>
                   lock_A (Some p) h = Returns (None, h)"
    by (simp add: lock_A_def)
  have live: "p < length (As h) \<and> 0 < use_count (As h ! p) \<longrightarrow>
                (\<exists>h'. lock_A (Some p) h = Returns (Some p, h')
                    \<and> object (As h' ! p) = object (As h ! p)
                    \<and> use_count (As h' ! p) = Suc (use_count (As h ! p))
                    \<and> Bs h' = Bs h \<and> console h' = console h)"
    by (simp add: lock_A_def)
  show ?thesis
    apply (intro conjI)
          apply (rule expired)
         apply (rule live)
        apply (simp add: weak_main_body_def pointer_defs)
       apply (simp add: lock_A_def)
      apply (simp add: pointer_defs)
     apply (simp add: lock_A_def)
    apply (simp add: pointer_defs)
    done
qed

theorem weak_pointer_resolves_while_owned_witness:
  "(0 :: nat) < length [\<lparr>use_count = 0 :: nat, weak_count = 1 :: nat, object = None :: A option\<rparr>]
   \<and> lock_A (Some 0)
          \<lparr>As = [\<lparr>use_count = 0, weak_count = 1, object = None\<rparr>], Bs = [], console = []\<rparr>
       = Returns (None,
          \<lparr>As = [\<lparr>use_count = 0, weak_count = 1, object = None\<rparr>], Bs = [], console = []\<rparr>)
   \<and> (0 :: nat) < use_count \<lparr>use_count = 3 :: nat, weak_count = 1 :: nat,
                              object = Some \<lparr>b_ptr = None\<rparr>\<rparr>
   \<and> lock_A (Some 0)
          \<lparr>As = [\<lparr>use_count = 3, weak_count = 1, object = Some \<lparr>b_ptr = None\<rparr>\<rparr>],
           Bs = [], console = []\<rparr>
       = Returns (Some 0,
          \<lparr>As = [\<lparr>use_count = 4, weak_count = 1, object = Some \<lparr>b_ptr = None\<rparr>\<rparr>],
           Bs = [], console = []\<rparr>)"
  using weak_pointer_resolves_while_owned
          [of 0 "\<lparr>As = [\<lparr>use_count = 0, weak_count = 1, object = None\<rparr>], Bs = [], console = []\<rparr>"]
        weak_pointer_resolves_while_owned
          [of 0 "\<lparr>As = [\<lparr>use_count = 3, weak_count = 1, object = Some \<lparr>b_ptr = None\<rparr>\<rparr>],
                  Bs = [], console = []\<rparr>"]
  by (simp add: lock_A_def)

text \<open>
  C10. Before \<open>return\<close>, \<open>A\<close> has one owner (the weak pointer in \<open>B\<close> is counted as an
  observer, not as an owner) and \<open>B\<close> has two. At \<open>return\<close> the local \<open>b\<close> goes first:
  \<open>B\<close> keeps one owner, the \<open>b_ptr\<close> of \<open>A\<close>, and stays alive, nothing is printed. Then
  \<open>a\<close> goes: \<open>A\<close> is destroyed although \<open>B\<close> still observes it, and with it \<open>B\<close>. The
  program as a whole prints each destructor line once, \<open>A\<close>'s before \<open>B\<close>'s, and leaves
  no object alive and no owner or observer counted.
\<close>

theorem exit_destroys_A_then_B:
  "weak_main_body =
        Returns (Some 0, Some 0,
          \<lparr>As = [\<lparr>use_count = 1, weak_count = 1, object = Some \<lparr>b_ptr = Some 0\<rparr>\<rparr>],
           Bs = [\<lparr>use_count = 2, weak_count = 0, object = Some \<lparr>a_ptr = Some 0\<rparr>\<rparr>],
           console = [''A Constructor'', ''B Constructor'']\<rparr>)
   \<and> release_B (Some 0)
          \<lparr>As = [\<lparr>use_count = 1, weak_count = 1, object = Some \<lparr>b_ptr = Some 0\<rparr>\<rparr>],
           Bs = [\<lparr>use_count = 2, weak_count = 0, object = Some \<lparr>a_ptr = Some 0\<rparr>\<rparr>],
           console = [''A Constructor'', ''B Constructor'']\<rparr>
       = Returns
          \<lparr>As = [\<lparr>use_count = 1, weak_count = 1, object = Some \<lparr>b_ptr = Some 0\<rparr>\<rparr>],
           Bs = [\<lparr>use_count = 1, weak_count = 0, object = Some \<lparr>a_ptr = Some 0\<rparr>\<rparr>],
           console = [''A Constructor'', ''B Constructor'']\<rparr>
   \<and> release_A (Some 0)
          \<lparr>As = [\<lparr>use_count = 1, weak_count = 1, object = Some \<lparr>b_ptr = Some 0\<rparr>\<rparr>],
           Bs = [\<lparr>use_count = 1, weak_count = 0, object = Some \<lparr>a_ptr = Some 0\<rparr>\<rparr>],
           console = [''A Constructor'', ''B Constructor'']\<rparr>
       = Returns
          \<lparr>As = [\<lparr>use_count = 0, weak_count = 0, object = None\<rparr>],
           Bs = [\<lparr>use_count = 0, weak_count = 0, object = None\<rparr>],
           console = [''A Constructor'', ''B Constructor'', ''A Destructor'', ''B Destructor'']\<rparr>
   \<and> weak_main
       = Returns
          \<lparr>As = [\<lparr>use_count = 0, weak_count = 0, object = None\<rparr>],
           Bs = [\<lparr>use_count = 0, weak_count = 0, object = None\<rparr>],
           console = [''A Constructor'', ''B Constructor'', ''A Destructor'', ''B Destructor'']\<rparr>"
  apply (intro conjI)
     apply (simp add: weak_main_body_def pointer_defs)
    apply (simp add: pointer_defs)
   apply (simp add: pointer_defs)
  apply (simp add: weak_main_def weak_main_body_def pointer_defs)
  done

end
